theory Spec2Isabelle
  imports Complex_Main "HOL-Library.Multiset"
begin

section \<open>Subscription detection of the Smart Financial Coach\<close>

text \<open>
  The development embeds \<^verbatim>\<open>detect_subscriptions\<close> of \<^verbatim>\<open>src/app.py\<close> (lines 25 to 87).
  Conventions of the embedding:
  \<^item> a data frame is the list of its rows, in row order; a row is a record of its four cells;
  \<^item> a cell of the \<^verbatim>\<open>date\<close> column is text or an already converted timestamp; a timestamp
    is the number of nanoseconds since the epoch, as pandas stores it;
  \<^item> a cell of the \<^verbatim>\<open>amount\<close> column is a number or text; numbers are exact rationals, so
    the rounding of IEEE doubles is outside the model (where the digits of a result decide
    a claim, the concrete input is chosen so that double arithmetic is exact on it);
  \<^item> missing cells (NaN, NaT) are outside the model;
  \<^item> descriptions are ASCII text;
  \<^item> every \<^verbatim>\<open>raise\<close> is a value \<open>Inl e\<close> of the result type \<open>error + 'a\<close>;
  \<^item> the assignment \<^verbatim>\<open>df['date'] = ...\<close> writes into the caller's frame, so the function
    returns the caller's frame after the call next to its result.
\<close>

subsection \<open>Errors\<close>

datatype error = DateParseError string | IndexError | TypeError | ZeroDivisionError

definition bind_err :: "error + 'a \<Rightarrow> ('a \<Rightarrow> error + 'b) \<Rightarrow> error + 'b" where
  "bind_err m f = (case m of Inl e \<Rightarrow> Inl e | Inr x \<Rightarrow> f x)"

subsection \<open>Data model\<close>

datatype date_cell = DateStr string | Timestamp int

datatype amount_cell = Number rat | Text string

record 'd row =
  date :: 'd
  description :: string
  amount :: amount_cell
  category :: string

text \<open>The dictionary appended to a merchant group at lines 43 to 48.\<close>

record txn =
  t_date :: int
  t_amount :: amount_cell
  full_description :: string
  t_category :: string

text \<open>The dictionary appended to \<^verbatim>\<open>subscriptions\<close> at lines 76 to 85.\<close>

record subscription =
  Service :: string
  Monthly_Cost :: string
  Frequency :: string
  Category :: string
  Times_Charged :: nat
  Last_Charge :: string
  Annual_Cost :: string
  cost_numeric :: rat

subsection \<open>Library functions the code calls\<close>

text \<open>
  \<^verbatim>\<open>pd.to_datetime\<close> on a column: every cell is converted, the first cell that cannot be
  converted raises. The parser of date text is a parameter \<open>parse\<close> of the model; a
  timestamp cell is kept.
\<close>

fun to_datetime_cell :: "(string \<Rightarrow> int option) \<Rightarrow> date_cell \<Rightarrow> error + int" where
  "to_datetime_cell parse (Timestamp t) = Inr t"
| "to_datetime_cell parse (DateStr s) =
     (case parse s of None \<Rightarrow> Inl (DateParseError s) | Some t \<Rightarrow> Inr t)"

fun to_datetime :: "(string \<Rightarrow> int option) \<Rightarrow> date_cell list \<Rightarrow> error + int list" where
  "to_datetime parse [] = Inr []"
| "to_datetime parse (c # cs) =
     bind_err (to_datetime_cell parse c) (\<lambda>t.
     bind_err (to_datetime parse cs) (\<lambda>ts. Inr (t # ts)))"

text \<open>Column assignment: the row with its \<^verbatim>\<open>date\<close> cell replaced.\<close>

definition set_date :: "'a row \<Rightarrow> 'b \<Rightarrow> 'b row" where
  "set_date r d =
     \<lparr>date = d, description = description r, amount = amount r, category = category r\<rparr>"

text \<open>\<^verbatim>\<open>str.split()\<close> without arguments: the maximal runs of non-whitespace characters.\<close>

definition is_space :: "char \<Rightarrow> bool" where
  "is_space c = (let n = (of_char c :: nat) in (9 \<le> n \<and> n \<le> 13) \<or> (28 \<le> n \<and> n \<le> 32))"

function split_ws :: "string \<Rightarrow> string list" where
  "split_ws s =
     (let s' = dropWhile is_space s in
      if s' = [] then []
      else takeWhile (\<lambda>c. \<not> is_space c) s' # split_ws (dropWhile (\<lambda>c. \<not> is_space c) s'))"
  by pat_completeness auto
termination
proof (relation "measure length")
  show "wf (measure length)" by simp
next
  fix s s' :: string
  assume s': "s' = dropWhile is_space s" and ne: "s' \<noteq> []"
  from ne obtain c cs where c: "s' = c # cs" by (cases s') auto
  have "\<not> is_space (hd (dropWhile is_space s))"
    using ne s' by (simp add: hd_dropWhile)
  with s' c have "\<not> is_space c" by (metis list.sel(1))
  then have "length (dropWhile (\<lambda>c. \<not> is_space c) s') < length s'"
    using c length_dropWhile_le [of "\<lambda>c. \<not> is_space c" cs] by simp
  also have "length s' \<le> length s" using s' by (simp add: length_dropWhile_le)
  finally show "(dropWhile (\<lambda>c. \<not> is_space c) s', s) \<in> measure length" by simp
qed

declare split_ws.simps [simp del]

text \<open>\<^verbatim>\<open>xs[0]\<close>: the first element, \<^verbatim>\<open>IndexError\<close> on the empty list.\<close>

definition item0 :: "'a list \<Rightarrow> error + 'a" where
  "item0 xs = (case xs of [] \<Rightarrow> Inl IndexError | x # _ \<Rightarrow> Inr x)"

text \<open>
  \<^verbatim>\<open>sum(amounts)\<close>: the cells are added from the left to the start value 0; adding
  text to a number raises \<^verbatim>\<open>TypeError\<close>.
\<close>

fun sum_from :: "rat \<Rightarrow> amount_cell list \<Rightarrow> error + rat" where
  "sum_from acc [] = Inr acc"
| "sum_from acc (Number q # cs) = sum_from (acc + q) cs"
| "sum_from acc (Text s # cs) = Inl TypeError"

definition py_sum :: "amount_cell list \<Rightarrow> error + rat" where
  "py_sum cs = sum_from 0 cs"

text \<open>\<^verbatim>\<open>a / len(xs)\<close>: true division, \<^verbatim>\<open>ZeroDivisionError\<close> on the divisor 0.\<close>

definition true_div :: "rat \<Rightarrow> nat \<Rightarrow> error + rat" where
  "true_div a n = (if n = 0 then Inl ZeroDivisionError else Inr (a / of_nat n))"

text \<open>
  \<^verbatim>\<open>all(abs(amt - avg_amount) <= 1.0 for amt in amounts)\<close>: the generator stops at the
  first amount that is too far; subtracting a number from text raises \<^verbatim>\<open>TypeError\<close>.
\<close>

fun all_close :: "rat \<Rightarrow> amount_cell list \<Rightarrow> error + bool" where
  "all_close avg [] = Inr True"
| "all_close avg (Number q # cs) = (if \<bar>q - avg\<bar> \<le> 1 then all_close avg cs else Inr False)"
| "all_close avg (Text s # cs) = Inl TypeError"

text \<open>\<^verbatim>\<open>Timedelta.days\<close>: the whole days of a difference of timestamps, rounded down.\<close>

definition ns_per_day :: int where
  "ns_per_day = 86400000000000"

definition days :: "int \<Rightarrow> int" where
  "days delta = delta div ns_per_day"

text \<open>\<^verbatim>\<open>int(x)\<close> on a number: truncation towards zero.\<close>

definition py_int :: "rat \<Rightarrow> int" where
  "py_int x = (if 0 \<le> x then \<lfloor>x\<rfloor> else \<lceil>x\<rceil>)"

text \<open>Decimal numerals, as \<^verbatim>\<open>str\<close> and the format specifications print them.\<close>

definition digit_char :: "nat \<Rightarrow> char" where
  "digit_char d = ''0123456789'' ! (d mod 10)"

function str_nat :: "nat \<Rightarrow> string" where
  "str_nat n = (if n < 10 then [digit_char n] else str_nat (n div 10) @ [digit_char n])"
  by pat_completeness auto
termination
  by (relation "measure id") auto

declare str_nat.simps [simp del]

definition str_int :: "int \<Rightarrow> string" where
  "str_int i = (if i < 0 then CHR ''-'' # str_nat (nat (- i)) else str_nat (nat i))"

text \<open>Padding with zeros on the left, as \<^verbatim>\<open>%m\<close>, \<^verbatim>\<open>%d\<close> and \<^verbatim>\<open>%Y\<close> do.\<close>

definition zero_pad :: "nat \<Rightarrow> string \<Rightarrow> string" where
  "zero_pad w s = replicate (w - length s) CHR ''0'' @ s"

text \<open>
  The format specification \<^verbatim>\<open>:.2f\<close>: the nearest numeral of two decimals, a tie going to
  the even neighbour; the sign is the sign of the number formatted.
\<close>

definition round_half_even :: "rat \<Rightarrow> int" where
  "round_half_even x =
     (let f = \<lfloor>x\<rfloor>; r = x - of_int f in
      if r < 1 / 2 then f else if 1 / 2 < r then f + 1 else if even f then f else f + 1)"

definition format_2f :: "rat \<Rightarrow> string" where
  "format_2f x =
     (let n = nat (round_half_even (\<bar>x\<bar> * 100)) in
      (if x < 0 then ''-'' else '''') @ str_nat (n div 100) @ ''.'' @ zero_pad 2 (str_nat (n mod 100)))"

text \<open>
  The civil date of a day number (days since 1970-01-01, proleptic Gregorian calendar)
  and back; \<^verbatim>\<open>strftime('%Y-%m-%d')\<close> prints the civil date of a timestamp.
\<close>

definition civil_from_days :: "int \<Rightarrow> int \<times> int \<times> int" where
  "civil_from_days z =
     (let z' = z + 719468;
          era = z' div 146097;
          doe = z' - era * 146097;
          yoe = (doe - doe div 1460 + doe div 36524 - doe div 146096) div 365;
          doy = doe - (365 * yoe + yoe div 4 - yoe div 100);
          mp = (5 * doy + 2) div 153;
          d = doy - (153 * mp + 2) div 5 + 1;
          m = (if mp < 10 then mp + 3 else mp - 9);
          y = yoe + era * 400
      in (if m \<le> 2 then y + 1 else y, m, d))"

definition days_from_civil :: "int \<Rightarrow> int \<Rightarrow> int \<Rightarrow> int" where
  "days_from_civil y m d =
     (let y' = (if m \<le> 2 then y - 1 else y);
          era = y' div 400;
          yoe = y' - era * 400;
          mp = (m + 9) mod 12;
          doy = (153 * mp + 2) div 5 + d - 1;
          doe = yoe * 365 + yoe div 4 - yoe div 100 + doy
      in era * 146097 + doe - 719468)"

definition strftime_ymd :: "int \<Rightarrow> string" where
  "strftime_ymd ts =
     (case civil_from_days (ts div ns_per_day) of (y, m, d) \<Rightarrow>
        zero_pad 4 (str_int y) @ ''-'' @ zero_pad 2 (str_int m) @ ''-'' @ zero_pad 2 (str_int d))"

subsection \<open>A parser of ISO calendar dates\<close>

text \<open>
  An instance of the parser parameter for the concrete runs below: the dates
  \<^verbatim>\<open>YYYY-MM-DD\<close> of the years 1678 to 2261, all of which \<^verbatim>\<open>pd.to_datetime\<close> converts to
  the midnight of that day. Every other text is rejected by this instance.
\<close>

definition digit_val :: "char \<Rightarrow> nat option" where
  "digit_val c = (let n = (of_char c :: nat) in if 48 \<le> n \<and> n \<le> 57 then Some (n - 48) else None)"

fun number_from :: "nat \<Rightarrow> string \<Rightarrow> nat option" where
  "number_from acc [] = Some acc"
| "number_from acc (c # cs) =
     (case digit_val c of None \<Rightarrow> None | Some d \<Rightarrow> number_from (10 * acc + d) cs)"

definition days_in_month :: "int \<Rightarrow> int \<Rightarrow> int" where
  "days_in_month y m =
     (if m = 2 then (if y mod 4 = 0 \<and> (y mod 100 \<noteq> 0 \<or> y mod 400 = 0) then 29 else 28)
      else if m = 4 \<or> m = 6 \<or> m = 9 \<or> m = 11 then 30 else 31)"

definition iso_date :: "string \<Rightarrow> int option" where
  "iso_date s =
     (if length s = 10 \<and> s ! 4 = CHR ''-'' \<and> s ! 7 = CHR ''-'' then
        (case (number_from 0 (take 4 s), number_from 0 (take 2 (drop 5 s)), number_from 0 (drop 8 s)) of
           (Some y, Some m, Some d) \<Rightarrow>
             if 1678 \<le> y \<and> y \<le> 2261 \<and> 1 \<le> m \<and> m \<le> 12 \<and> 1 \<le> d
                \<and> int d \<le> days_in_month (int y) (int m)
             then Some (days_from_civil (int y) (int m) (int d) * ns_per_day)
             else None
         | _ \<Rightarrow> None)
      else None)"

subsection \<open>The detector\<close>

text \<open>
  Lines 40 to 48: the rows of the sorted frame are appended to the group of their
  merchant, the first word of the description. The \<^verbatim>\<open>defaultdict\<close> keeps its keys in the
  order of their first insertion, so it is an association list.
\<close>

fun append_group :: "string \<Rightarrow> txn \<Rightarrow> (string \<times> txn list) list \<Rightarrow> (string \<times> txn list) list" where
  "append_group m t [] = [(m, [t])]"
| "append_group m t ((k, ts) # rest) =
     (if k = m then (k, ts @ [t]) # rest else (k, ts) # append_group m t rest)"

definition txn_of :: "int row \<Rightarrow> txn" where
  "txn_of r =
     \<lparr>t_date = date r, t_amount = amount r, full_description = description r,
      t_category = category r\<rparr>"

fun group_rows :: "int row list \<Rightarrow> (string \<times> txn list) list \<Rightarrow> error + (string \<times> txn list) list" where
  "group_rows [] merchant_groups = Inr merchant_groups"
| "group_rows (r # rs) merchant_groups =
     bind_err (item0 (split_ws (description r))) (\<lambda>merchant.
     group_rows rs (append_group merchant (txn_of r) merchant_groups))"

text \<open>
  Lines 63 to 65: the whole days between consecutive transactions.
\<close>

definition intervals_of :: "txn list \<Rightarrow> int list" where
  "intervals_of transactions =
     map (\<lambda>i. days (t_date (transactions ! (i + 1)) - t_date (transactions ! i)))
       [0 ..< length transactions - 1]"

text \<open>
  Lines 76 to 85. The call is behind the gate of line 53, so \<^verbatim>\<open>transactions[0]\<close> and
  \<^verbatim>\<open>transactions[-1]\<close> are the head and the last element of a list of two or more.
\<close>

definition build_record :: "txn list \<Rightarrow> rat \<Rightarrow> rat \<Rightarrow> subscription" where
  "build_record transactions avg_amount avg_interval =
     \<lparr>Service = full_description (hd transactions),
      Monthly_Cost = ''$'' @ format_2f avg_amount,
      Frequency = ''Every ~'' @ str_int (py_int avg_interval) @ '' days'',
      Category = t_category (hd transactions),
      Times_Charged = length transactions,
      Last_Charge = strftime_ymd (t_date (last transactions)),
      Annual_Cost = ''$'' @ format_2f (avg_amount * 12),
      cost_numeric = avg_amount\<rparr>"

text \<open>
  Lines 53 to 85, the body of the loop over the groups: \<open>None\<close> when the group adds no
  record.
\<close>

definition check_group :: "txn list \<Rightarrow> error + subscription option" where
  "check_group unsorted =
     (if length unsorted < 2 then Inr None
      else
        let transactions = sort_key t_date unsorted;
            amounts = map t_amount transactions;
            intervals = intervals_of transactions
        in
          bind_err (py_sum amounts) (\<lambda>total.
          bind_err (true_div total (length amounts)) (\<lambda>avg_amount.
          bind_err (all_close avg_amount amounts) (\<lambda>amount_variance.
            if intervals \<noteq> [] then
              bind_err (true_div (of_int (sum_list intervals)) (length intervals)) (\<lambda>avg_interval.
                let interval_consistent = list_all (\<lambda>interval. 25 \<le> interval \<and> interval \<le> 35) intervals
                in if amount_variance \<and> interval_consistent
                   then Inr (Some (build_record transactions avg_amount avg_interval))
                   else Inr None)
            else Inr None))))"

fun scan_groups :: "(string \<times> txn list) list \<Rightarrow> subscription list \<Rightarrow> error + subscription list" where
  "scan_groups [] subscriptions = Inr subscriptions"
| "scan_groups ((merchant, transactions) # rest) subscriptions =
     bind_err (check_group transactions) (\<lambda>found.
     scan_groups rest (case found of None \<Rightarrow> subscriptions | Some s \<Rightarrow> subscriptions @ [s]))"

text \<open>
  The function. Line 34 converts the date column and assigns it to the caller's frame
  (when the conversion raises, nothing has been assigned); line 35 binds the local name
  to a sorted copy. The sort is stable, as section 4.1 of the specification has it
  (\<^verbatim>\<open>sort_values\<close> permutes the rows by a permutation computed from the date column
  alone, and its default algorithm does not promise to keep rows of equal dates in input
  order; only the order of rows of equal dates depends on this choice). The first
  component of the result is the caller's frame after the call.
\<close>

definition detect_subscriptions ::
  "(string \<Rightarrow> int option) \<Rightarrow> date_cell row list \<Rightarrow> date_cell row list \<times> (error + subscription list)" where
  "detect_subscriptions parse df =
     (case to_datetime parse (map date df) of
        Inl e \<Rightarrow> (df, Inl e)
      | Inr ts \<Rightarrow>
          let converted = map2 set_date df ts;
              sorted_df = sort_key date converted
          in (map (\<lambda>r. set_date r (Timestamp (date r))) converted,
              bind_err (group_rows sorted_df []) (\<lambda>merchant_groups.
              scan_groups merchant_groups [])))"

text \<open>The value the call returns: the \<^verbatim>\<open>detect\<close> of the specification.\<close>

definition detect :: "(string \<Rightarrow> int option) \<Rightarrow> date_cell row list \<Rightarrow> error + subscription list" where
  "detect parse df = snd (detect_subscriptions parse df)"

subsection \<open>The vocabulary of the specification\<close>

text \<open>
  The definitions of this subsection follow the words of the specification (sections 3
  and 4.1); the theorems below compare them with the embedding of the code above.
\<close>

text \<open>A date cell is convertible; the timestamp it converts to.\<close>

definition parses :: "(string \<Rightarrow> int option) \<Rightarrow> date_cell \<Rightarrow> bool" where
  "parses parse c = (case c of Timestamp t \<Rightarrow> True | DateStr s \<Rightarrow> parse s \<noteq> None)"

definition stamp_of :: "(string \<Rightarrow> int option) \<Rightarrow> date_cell \<Rightarrow> int" where
  "stamp_of parse c =
     (case c of Timestamp t \<Rightarrow> t
      | DateStr s \<Rightarrow> (case parse s of Some t \<Rightarrow> t | None \<Rightarrow> 0))"

definition convert :: "(string \<Rightarrow> int option) \<Rightarrow> date_cell row \<Rightarrow> int row" where
  "convert parse r = set_date r (stamp_of parse (date r))"

text \<open>The frame sorted by date (step 1), and the caller's frame with its dates converted.\<close>

definition sorted_frame :: "(string \<Rightarrow> int option) \<Rightarrow> date_cell row list \<Rightarrow> int row list" where
  "sorted_frame parse df = sort_key date (map (convert parse) df)"

definition frame_after :: "(string \<Rightarrow> int option) \<Rightarrow> date_cell row list \<Rightarrow> date_cell row list" where
  "frame_after parse df = map (\<lambda>r. set_date r (Timestamp (stamp_of parse (date r)))) df"

text \<open>MerchantKey: the first whitespace-delimited token of the description.\<close>

definition merchant_key :: "string \<Rightarrow> string" where
  "merchant_key d = (case split_ws d of [] \<Rightarrow> [] | w # _ \<Rightarrow> w)"

text \<open>The keys of a list in the order of their first occurrence.\<close>

fun first_seen :: "'a list \<Rightarrow> 'a list" where
  "first_seen [] = []"
| "first_seen (x # xs) = x # filter (\<lambda>y. y \<noteq> x) (first_seen xs)"

text \<open>
  MerchantGroup (step 2): the transactions that share a merchant key, in the order of
  the frame; the groups in the order in which their keys are first seen.
\<close>

definition groups_of :: "int row list \<Rightarrow> (string \<times> txn list) list" where
  "groups_of rs =
     map (\<lambda>k. (k, map txn_of (filter (\<lambda>r. merchant_key (description r) = k) rs)))
       (first_seen (map (\<lambda>r. merchant_key (description r)) rs))"

definition merchant_groups :: "(string \<Rightarrow> int option) \<Rightarrow> date_cell row list \<Rightarrow> txn list list" where
  "merchant_groups parse df = map snd (groups_of (sorted_frame parse df))"

text \<open>Numeric amounts and their values.\<close>

definition is_number :: "amount_cell \<Rightarrow> bool" where
  "is_number c = (case c of Number q \<Rightarrow> True | Text s \<Rightarrow> False)"

definition amount_value :: "amount_cell \<Rightarrow> rat" where
  "amount_value c = (case c of Number q \<Rightarrow> q | Text s \<Rightarrow> 0)"

text \<open>Step 6: the mean amount of a group.\<close>

definition group_mean :: "txn list \<Rightarrow> rat" where
  "group_mean g = sum_list (map (\<lambda>t. amount_value (t_amount t)) g) / of_nat (length g)"

text \<open>
  Step 7, the amount-stability predicate: every amount is a number within 1.00 of the
  mean of the group.
\<close>

definition amount_stable :: "txn list \<Rightarrow> bool" where
  "amount_stable g =
     list_all (\<lambda>t. is_number (t_amount t) \<and> \<bar>amount_value (t_amount t) - group_mean g\<bar> \<le> 1) g"

text \<open>Steps 4 and 5: the day intervals between consecutive transactions, sorted by date.\<close>

definition group_intervals :: "txn list \<Rightarrow> int list" where
  "group_intervals g = intervals_of (sort_key t_date g)"

text \<open>Step 8, the interval-regularity predicate.\<close>

definition interval_regular :: "txn list \<Rightarrow> bool" where
  "interval_regular g = list_all (\<lambda>i. 25 \<le> i \<and> i \<le> 35) (group_intervals g)"

definition mean_interval :: "txn list \<Rightarrow> rat" where
  "mean_interval g = of_int (sum_list (group_intervals g)) / of_nat (length (group_intervals g))"

text \<open>Steps 3, 7 and 8 together: the groups for which a record is to be emitted.\<close>

definition qualifies :: "txn list \<Rightarrow> bool" where
  "qualifies g = (2 \<le> length g \<and> amount_stable g \<and> interval_regular g)"

text \<open>Step 9: the record of a group.\<close>

definition summary :: "txn list \<Rightarrow> subscription" where
  "summary g = build_record (sort_key t_date g) (group_mean g) (mean_interval g)"

text \<open>
  Well-formed input: every date converts, every amount is a number and every description
  has a first word.
\<close>

definition well_formed :: "(string \<Rightarrow> int option) \<Rightarrow> date_cell row list \<Rightarrow> bool" where
  "well_formed parse df =
     list_all (\<lambda>r. parses parse (date r) \<and> is_number (amount r) \<and> split_ws (description r) \<noteq> []) df"

subsection \<open>Concrete inputs\<close>

text \<open>
  Three monthly charges of one merchant, out of order, and a single charge of another
  merchant; the record the code returns for them.
\<close>

definition scenario_a :: "date_cell row list" where
  "scenario_a =
     [\<lparr>date = DateStr ''2024-01-31'', description = ''Netflix Monthly'',
       amount = Number (1599 / 100), category = ''Streaming''\<rparr>,
      \<lparr>date = DateStr ''2024-02-15'', description = ''Spotify Family'',
       amount = Number (1699 / 100), category = ''Music''\<rparr>,
      \<lparr>date = DateStr ''2024-01-01'', description = ''Netflix Premium'',
       amount = Number (1599 / 100), category = ''Entertainment''\<rparr>,
      \<lparr>date = DateStr ''2024-03-01'', description = ''Netflix Monthly'',
       amount = Number (1599 / 100), category = ''Streaming''\<rparr>]"

definition group_a :: "txn list" where
  "group_a =
     [\<lparr>t_date = 1704067200000000000, t_amount = Number (1599 / 100),
       full_description = ''Netflix Premium'', t_category = ''Entertainment''\<rparr>,
      \<lparr>t_date = 1706659200000000000, t_amount = Number (1599 / 100),
       full_description = ''Netflix Monthly'', t_category = ''Streaming''\<rparr>,
      \<lparr>t_date = 1709251200000000000, t_amount = Number (1599 / 100),
       full_description = ''Netflix Monthly'', t_category = ''Streaming''\<rparr>]"

definition group_spotify :: "txn list" where
  "group_spotify =
     [\<lparr>t_date = 1707955200000000000, t_amount = Number (1699 / 100),
       full_description = ''Spotify Family'', t_category = ''Music''\<rparr>]"

definition record_a :: subscription where
  "record_a =
     \<lparr>Service = ''Netflix Premium'', Monthly_Cost = ''$15.99'', Frequency = ''Every ~30 days'',
      Category = ''Entertainment'', Times_Charged = 3, Last_Charge = ''2024-03-01'',
      Annual_Cost = ''$191.88'', cost_numeric = 1599 / 100\<rparr>"




text \<open>A single row whose description is three spaces.\<close>

definition scenario_blank :: "date_cell row list" where
  "scenario_blank =
     [\<lparr>date = DateStr ''2024-01-01'', description = ''   '',
       amount = Number (999 / 100), category = ''Misc''\<rparr>]"












section \<open>Properties\<close>

subsection \<open>The steps of the detector\<close>

lemma bind_err_simps [simp]:
  "bind_err (Inl e) f = Inl e" "bind_err (Inr x) f = f x"
  by (simp_all add: bind_err_def)

lemma bind_err_Inr_iff: "bind_err m f = Inr y \<longleftrightarrow> (\<exists>x. m = Inr x \<and> f x = Inr y)"
  by (cases m) simp_all

lemma bind_err_Inl_iff:
  "bind_err m f = Inl e \<longleftrightarrow> m = Inl e \<or> (\<exists>x. m = Inr x \<and> f x = Inl e)"
  by (cases m) simp_all

lemma to_datetime_cell_Inr:
  "to_datetime_cell parse c = Inr t \<longleftrightarrow> parses parse c \<and> t = stamp_of parse c"
  by (cases c) (auto simp: parses_def stamp_of_def split: option.splits)

lemma to_datetime_Inr:
  "to_datetime parse cs = Inr ts \<longleftrightarrow> (\<forall>c\<in>set cs. parses parse c) \<and> ts = map (stamp_of parse) cs"
proof (induction cs arbitrary: ts)
  case Nil
  show ?case by auto
next
  case (Cons c cs)
  show ?case
    by (auto simp: bind_err_Inr_iff to_datetime_cell_Inr Cons.IH)
qed

lemma to_datetime_Inl:
  "to_datetime parse cs = Inl e \<Longrightarrow> \<exists>s. e = DateParseError s \<and> DateStr s \<in> set cs \<and> parse s = None"
proof (induction cs)
  case Nil
  then show ?case by simp
next
  case (Cons c cs)
  show ?case
  proof (cases "to_datetime_cell parse c")
    case (Inl e')
    with Cons.prems have "e' = e" by simp
    with Inl show ?thesis
      by (cases c) (auto split: option.splits)
  next
    case (Inr t)
    with Cons.prems have "to_datetime parse cs = Inl e"
      by (cases "to_datetime parse cs") auto
    with Cons.IH show ?thesis by auto
  qed
qed

lemma to_datetime_cases:
  "(\<exists>s. to_datetime parse cs = Inl (DateParseError s)) \<or> (\<exists>ts. to_datetime parse cs = Inr ts)"
  by (cases "to_datetime parse cs") (auto dest: to_datetime_Inl)

lemma to_datetime_fails:
  assumes "\<exists>c\<in>set cs. \<not> parses parse c"
  shows "\<exists>s. to_datetime parse cs = Inl (DateParseError s)"
  using assms to_datetime_cases [of parse cs] by (auto simp: to_datetime_Inr)

lemma map2_set_date:
  "map2 set_date df (map (stamp_of parse) (map date df)) = map (convert parse) df"
  by (induction df) (simp_all add: convert_def)

lemma set_first_seen [simp]: "set (first_seen xs) = set xs"
  by (induction xs) auto

lemma distinct_first_seen [simp]: "distinct (first_seen xs)"
  by (induction xs) auto

lemma first_seen_snoc:
  "first_seen (xs @ [y]) = (if y \<in> set xs then first_seen xs else first_seen xs @ [y])"
  by (induction xs) auto

lemma append_group_map:
  "distinct ks \<Longrightarrow>
   append_group m t (map (\<lambda>k. (k, f k)) ks) =
     (if m \<in> set ks then map (\<lambda>k. (k, if k = m then f k @ [t] else f k)) ks
      else map (\<lambda>k. (k, f k)) ks @ [(m, [t])])"
  by (induction ks) auto

lemma groups_of_snoc:
  "append_group (merchant_key (description r)) (txn_of r) (groups_of rs) = groups_of (rs @ [r])"
  unfolding groups_of_def
  by (subst append_group_map) (auto simp: first_seen_snoc filter_empty_conv image_iff)

lemma item0_split_ws:
  "item0 (split_ws d) = (if split_ws d = [] then Inl IndexError else Inr (merchant_key d))"
  by (simp add: item0_def merchant_key_def split: list.splits)

lemma group_rows_ok:
  "\<forall>r\<in>set rs. split_ws (description r) \<noteq> [] \<Longrightarrow>
   group_rows rs (groups_of pre) = Inr (groups_of (pre @ rs))"
proof (induction rs arbitrary: pre)
  case Nil
  show ?case by simp
next
  case (Cons r rs)
  have "group_rows (r # rs) (groups_of pre) = group_rows rs (groups_of (pre @ [r]))"
    using Cons.prems by (simp add: item0_split_ws groups_of_snoc)
  also have "\<dots> = Inr (groups_of ((pre @ [r]) @ rs))"
    using Cons.prems by (intro Cons.IH) simp
  finally show ?case by simp
qed

lemma group_rows_blank:
  "\<exists>r\<in>set rs. split_ws (description r) = [] \<Longrightarrow> group_rows rs acc = Inl IndexError"
proof (induction rs arbitrary: acc)
  case Nil
  then show ?case by simp
next
  case (Cons r rs)
  show ?case
  proof (cases "split_ws (description r) = []")
    case True
    then have "item0 (split_ws (description r)) = Inl IndexError"
      by (simp add: item0_def)
    then show ?thesis by simp
  next
    case False
    with Cons.prems have "\<exists>r\<in>set rs. split_ws (description r) = []" by auto
    then show ?thesis using False by (simp add: item0_split_ws Cons.IH)
  qed
qed

lemma groups_of_Nil [simp]: "groups_of [] = []"
  by (simp add: groups_of_def)

lemma group_rows_start:
  "group_rows rs [] =
     (if \<forall>r\<in>set rs. split_ws (description r) \<noteq> [] then Inr (groups_of rs) else Inl IndexError)"
  using group_rows_ok [of rs "[]"] group_rows_blank [of rs "[]"] by auto

lemma sum_from_numbers:
  "list_all is_number cs \<Longrightarrow> sum_from acc cs = Inr (acc + sum_list (map amount_value cs))"
proof (induction cs arbitrary: acc)
  case Nil
  show ?case by simp
next
  case (Cons c cs)
  then show ?case by (cases c) (simp_all add: is_number_def amount_value_def)
qed

lemma sum_from_text:
  "\<not> list_all is_number cs \<Longrightarrow> sum_from acc cs = Inl TypeError"
proof (induction cs arbitrary: acc)
  case Nil
  then show ?case by simp
next
  case (Cons c cs)
  then show ?case by (cases c) (simp_all add: is_number_def)
qed

lemma all_close_numbers:
  "list_all is_number cs \<Longrightarrow>
   all_close avg cs = Inr (list_all (\<lambda>c. \<bar>amount_value c - avg\<bar> \<le> 1) cs)"
proof (induction cs)
  case Nil
  show ?case by simp
next
  case (Cons c cs)
  then show ?case by (cases c) (simp_all add: is_number_def amount_value_def)
qed

lemma length_intervals_of [simp]: "length (intervals_of ts) = length ts - 1"
  by (simp add: intervals_of_def)

lemma sum_list_map_sort_key:
  fixes f :: "'a \<Rightarrow> rat"
  shows "sum_list (map f (sort_key k xs)) = sum_list (map f xs)"
proof -
  have "sum_list (map f (sort_key k xs)) = sum_mset (mset (map f (sort_key k xs)))"
    by (simp only: sum_mset_sum_list)
  also have "\<dots> = sum_mset (mset (map f xs))"
    by simp
  also have "\<dots> = sum_list (map f xs)"
    by (simp only: sum_mset_sum_list)
  finally show ?thesis .
qed

lemma list_all_sort_key: "list_all P (sort_key k xs) = list_all P xs"
  by (simp add: list_all_iff)

lemma check_group_short: "length g < 2 \<Longrightarrow> check_group g = Inr None"
  by (simp add: check_group_def)

lemma check_group_text:
  assumes "2 \<le> length g" and "\<not> list_all (\<lambda>t. is_number (t_amount t)) g"
  shows "check_group g = Inl TypeError"
proof -
  have "\<not> list_all is_number (map t_amount (sort_key t_date g))"
    using assms(2) by (simp add: list_all_iff)
  then have "py_sum (map t_amount (sort_key t_date g)) = Inl TypeError"
    unfolding py_sum_def by (rule sum_from_text)
  with assms(1) show ?thesis
    by (simp add: check_group_def Let_def)
qed

lemma check_group_numbers:
  assumes len: "2 \<le> length g" and num: "list_all (\<lambda>t. is_number (t_amount t)) g"
  shows "check_group g = Inr (if qualifies g then Some (summary g) else None)"
proof -
  let ?ts = "sort_key t_date g"
  let ?amounts = "map t_amount ?ts"
  have gne: "g \<noteq> []" and ilen: "length g - Suc 0 \<noteq> 0"
    using len by auto
  have nums: "list_all is_number ?amounts"
    using num by (simp add: list_all_iff)
  have total: "py_sum ?amounts = Inr (sum_list (map (\<lambda>t. amount_value (t_amount t)) g))"
    unfolding py_sum_def
    using sum_from_numbers [OF nums, of 0] sum_list_map_sort_key [of "\<lambda>t. amount_value (t_amount t)" t_date g]
    by (simp add: comp_def)
  have avg: "true_div (sum_list (map (\<lambda>t. amount_value (t_amount t)) g)) (length g) = Inr (group_mean g)"
    using gne by (simp add: true_div_def group_mean_def)
  have close: "all_close (group_mean g) ?amounts = Inr (amount_stable g)"
    using all_close_numbers [OF nums, of "group_mean g"] num
    by (simp add: amount_stable_def list_all_iff)
  have "length (intervals_of ?ts) \<noteq> 0"
    using len by simp
  then have ne: "intervals_of ?ts \<noteq> []"
    by (simp del: length_intervals_of)
  have avg_i: "true_div (of_int (sum_list (intervals_of ?ts))) (length (intervals_of ?ts)) = Inr (mean_interval g)"
    using ilen by (simp add: true_div_def mean_interval_def group_intervals_def)
  show ?thesis
    using len ne
    by (simp add: check_group_def Let_def total avg close avg_i qualifies_def summary_def
        interval_regular_def group_intervals_def del: length_intervals_of)
qed

lemma check_group_eq:
  "check_group g =
     (if length g < 2 then Inr None
      else if \<not> list_all (\<lambda>t. is_number (t_amount t)) g then Inl TypeError
      else Inr (if qualifies g then Some (summary g) else None))"
  using check_group_short [of g] check_group_text [of g] check_group_numbers [of g]
  by (cases "length g < 2") auto

lemma not_qualifies_short: "length g < 2 \<Longrightarrow> \<not> qualifies g"
  by (simp add: qualifies_def)

lemma check_group_Inr:
  "check_group g = Inr found \<Longrightarrow> found = (if qualifies g then Some (summary g) else None)"
  by (auto simp: check_group_eq not_qualifies_short split: if_splits)

lemma scan_groups_Inr:
  "scan_groups gs acc = Inr subs \<Longrightarrow>
   subs = acc @ map summary (filter qualifies (map snd gs))"
proof (induction gs arbitrary: acc)
  case Nil
  then show ?case by simp
next
  case (Cons p gs)
  obtain merchant g where p: "p = (merchant, g)" by (cases p)
  from Cons.prems p obtain found where
    f: "check_group g = Inr found" and
    r: "scan_groups gs (case found of None \<Rightarrow> acc | Some s \<Rightarrow> acc @ [s]) = Inr subs"
    by (auto simp: bind_err_Inr_iff)
  from check_group_Inr [OF f] Cons.IH [OF r] p show ?case
    by (auto split: if_splits)
qed

lemma scan_groups_numbers:
  "\<forall>p\<in>set gs. 2 \<le> length (snd p) \<longrightarrow> list_all (\<lambda>t. is_number (t_amount t)) (snd p) \<Longrightarrow>
   \<exists>subs. scan_groups gs acc = Inr subs"
proof (induction gs arbitrary: acc)
  case Nil
  show ?case by simp
next
  case (Cons p gs)
  obtain merchant g where p: "p = (merchant, g)" by (cases p)
  have "\<exists>found. check_group g = Inr found"
    using Cons.prems p by (cases "length g < 2") (auto simp: check_group_eq)
  then obtain found where "check_group g = Inr found" ..
  moreover have "\<exists>subs. scan_groups gs (case found of None \<Rightarrow> acc | Some s \<Rightarrow> acc @ [s]) = Inr subs"
    using Cons.prems by (intro Cons.IH) simp
  ultimately show ?case using p by auto
qed

lemma scan_groups_Inl:
  "scan_groups gs acc = Inl e \<longleftrightarrow>
   e = TypeError \<and> (\<exists>p\<in>set gs. 2 \<le> length (snd p) \<and> \<not> list_all (\<lambda>t. is_number (t_amount t)) (snd p))"
proof (induction gs arbitrary: acc)
  case Nil
  show ?case by simp
next
  case (Cons p gs)
  obtain merchant g where p: "p = (merchant, g)" by (cases p)
  show ?case
  proof (cases "2 \<le> length g \<and> \<not> list_all (\<lambda>t. is_number (t_amount t)) g")
    case True
    then have "check_group g = Inl TypeError" by (simp add: check_group_eq)
    with True p show ?thesis by auto
  next
    case False
    then have "\<exists>found. check_group g = Inr found"
      by (cases "length g < 2") (auto simp: check_group_eq)
    then obtain found where "check_group g = Inr found" ..
    with False p Cons.IH show ?thesis by auto
  qed
qed

lemma detect_subscriptions_unparsed:
  assumes "\<exists>r\<in>set df. \<not> parses parse (date r)"
  shows "\<exists>s. detect_subscriptions parse df = (df, Inl (DateParseError s))"
proof -
  from assms have "\<exists>c\<in>set (map date df). \<not> parses parse c" by auto
  from to_datetime_fails [OF this] obtain s where
    "to_datetime parse (map date df) = Inl (DateParseError s)" ..
  then show ?thesis by (simp add: detect_subscriptions_def)
qed

lemma detect_subscriptions_parsed:
  assumes "\<forall>r\<in>set df. parses parse (date r)"
  shows "detect_subscriptions parse df =
           (frame_after parse df,
            bind_err (group_rows (sorted_frame parse df) []) (\<lambda>gs. scan_groups gs []))"
proof -
  from assms have "to_datetime parse (map date df) = Inr (map (stamp_of parse) (map date df))"
    by (simp add: to_datetime_Inr)
  moreover have "map (\<lambda>r. set_date r (Timestamp (date r))) (map (convert parse) df) = frame_after parse df"
    by (simp add: frame_after_def convert_def set_date_def)
  ultimately show ?thesis
    by (simp add: detect_subscriptions_def map2_set_date sorted_frame_def Let_def
        del: map_map)
qed

lemma blank_sorted_frame:
  "(\<forall>r\<in>set (sorted_frame parse df). split_ws (description r) \<noteq> []) \<longleftrightarrow>
   (\<forall>r\<in>set df. split_ws (description r) \<noteq> [])"
  by (simp add: sorted_frame_def convert_def set_date_def)

lemma detect_blank:
  assumes "\<forall>r\<in>set df. parses parse (date r)"
    and "\<exists>r\<in>set df. split_ws (description r) = []"
  shows "detect parse df = Inl IndexError"
proof -
  from assms(2) have "\<exists>r\<in>set (sorted_frame parse df). split_ws (description r) = []"
    using blank_sorted_frame [of parse df] by blast
  then have "group_rows (sorted_frame parse df) [] = Inl IndexError"
    by (rule group_rows_blank)
  with assms(1) show ?thesis
    by (simp add: detect_def detect_subscriptions_parsed)
qed

lemma detect_grouped:
  assumes "\<forall>r\<in>set df. parses parse (date r)"
    and "\<forall>r\<in>set df. split_ws (description r) \<noteq> []"
  shows "detect parse df = scan_groups (groups_of (sorted_frame parse df)) []"
proof -
  from assms(2) have "\<forall>r\<in>set (sorted_frame parse df). split_ws (description r) \<noteq> []"
    using blank_sorted_frame [of parse df] by blast
  then have "group_rows (sorted_frame parse df) [] = Inr (groups_of (sorted_frame parse df))"
    using group_rows_ok [of "sorted_frame parse df" "[]"] by simp
  with assms(1) show ?thesis
    by (simp add: detect_def detect_subscriptions_parsed)
qed

lemma detect_Inr:
  assumes "detect parse df = Inr subs"
  shows "(\<forall>r\<in>set df. parses parse (date r)) \<and> (\<forall>r\<in>set df. split_ws (description r) \<noteq> [])
    \<and> subs = map summary (filter qualifies (merchant_groups parse df))"
proof -
  have p: "\<forall>r\<in>set df. parses parse (date r)"
  proof (rule ccontr)
    assume "\<not> ?thesis"
    then have "\<exists>r\<in>set df. \<not> parses parse (date r)" by simp
    from detect_subscriptions_unparsed [OF this] assms show False
      by (auto simp: detect_def)
  qed
  have b: "\<forall>r\<in>set df. split_ws (description r) \<noteq> []"
  proof (rule ccontr)
    assume "\<not> ?thesis"
    then have "\<exists>r\<in>set df. split_ws (description r) = []" by simp
    from detect_blank [OF p this] assms show False by simp
  qed
  from assms have "scan_groups (groups_of (sorted_frame parse df)) [] = Inr subs"
    by (simp add: detect_grouped [OF p b])
  from scan_groups_Inr [OF this] p b show ?thesis
    by (simp add: merchant_groups_def)
qed

lemma detect_Inl_cases:
  assumes "detect parse df = Inl e"
  shows "(\<exists>s. e = DateParseError s) \<or> e = IndexError \<or> e = TypeError"
proof (cases "\<forall>r\<in>set df. parses parse (date r)")
  case False
  then have "\<exists>r\<in>set df. \<not> parses parse (date r)" by simp
  from detect_subscriptions_unparsed [OF this] assms show ?thesis
    by (auto simp: detect_def)
next
  case p: True
  show ?thesis
  proof (cases "\<forall>r\<in>set df. split_ws (description r) \<noteq> []")
    case False
    then have "\<exists>r\<in>set df. split_ws (description r) = []" by simp
    from detect_blank [OF p this] assms show ?thesis by simp
  next
    case True
    from assms have "scan_groups (groups_of (sorted_frame parse df)) [] = Inl e"
      by (simp add: detect_grouped [OF p True])
    then show ?thesis by (simp add: scan_groups_Inl)
  qed
qed

lemma amount_sorted_frame:
  "r \<in> set (sorted_frame parse df) \<Longrightarrow> \<exists>r'\<in>set df. amount r = amount r' \<and> description r = description r'"
  by (auto simp: sorted_frame_def convert_def set_date_def)

lemma groups_of_members:
  assumes "p \<in> set (groups_of rs)" and "t \<in> set (snd p)"
  shows "\<exists>r\<in>set rs. t = txn_of r \<and> merchant_key (description r) = fst p"
  using assms by (auto simp: groups_of_def)

lemma groups_of_nonempty:
  assumes "p \<in> set (groups_of rs)"
  shows "snd p \<noteq> []"
proof -
  from assms obtain r where "r \<in> set rs" and "merchant_key (description r) = fst p"
    and "snd p = map txn_of (filter (\<lambda>r. merchant_key (description r) = fst p) rs)"
    by (auto simp: groups_of_def)
  then show ?thesis by (auto simp: filter_empty_conv)
qed

lemma detect_well_formed:
  assumes "well_formed parse df"
  shows "\<exists>subs. detect parse df = Inr subs"
proof -
  from assms have p: "\<forall>r\<in>set df. parses parse (date r)"
    and b: "\<forall>r\<in>set df. split_ws (description r) \<noteq> []"
    and n: "\<forall>r\<in>set df. is_number (amount r)"
    by (auto simp: well_formed_def list_all_iff)
  have "\<forall>p\<in>set (groups_of (sorted_frame parse df)).
          2 \<le> length (snd p) \<longrightarrow> list_all (\<lambda>t. is_number (t_amount t)) (snd p)"
  proof (intro ballI impI)
    fix p assume "p \<in> set (groups_of (sorted_frame parse df))"
    then have "\<forall>t\<in>set (snd p). is_number (t_amount t)"
      using n by (auto simp: txn_of_def dest!: groups_of_members amount_sorted_frame)
    then show "list_all (\<lambda>t. is_number (t_amount t)) (snd p)"
      by (simp add: list_all_iff)
  qed
  from scan_groups_numbers [OF this] show ?thesis
    by (simp add: detect_grouped [OF p b])
qed

lemma detect_no_zero_division: "detect parse df \<noteq> Inl ZeroDivisionError"
  using detect_Inl_cases [of parse df ZeroDivisionError] by auto

subsection \<open>Qualifying groups\<close>

lemma sum_list_bounds:
  fixes xs :: "int list"
  assumes "\<forall>i\<in>set xs. lo \<le> i \<and> i \<le> hi"
  shows "lo * int (length xs) \<le> sum_list xs \<and> sum_list xs \<le> hi * int (length xs)"
  using assms by (induction xs) (auto simp: algebra_simps)

lemma group_intervals_nonempty: "2 \<le> length g \<Longrightarrow> group_intervals g \<noteq> []"
proof -
  assume "2 \<le> length g"
  then have "length (group_intervals g) \<noteq> 0" by (simp add: group_intervals_def)
  then show ?thesis by (simp del: length_intervals_of)
qed

lemma mean_interval_bounds:
  assumes "qualifies g"
  shows "25 \<le> mean_interval g \<and> mean_interval g \<le> 35"
proof -
  let ?is = "group_intervals g"
  from assms have len: "2 \<le> length g" and reg: "\<forall>i\<in>set ?is. 25 \<le> i \<and> i \<le> 35"
    by (simp_all add: qualifies_def interval_regular_def list_all_iff)
  from group_intervals_nonempty [OF len] have pos: "0 < length ?is" by simp
  from sum_list_bounds [OF reg] have
    lo: "25 * int (length ?is) \<le> sum_list ?is" and hi: "sum_list ?is \<le> 35 * int (length ?is)"
    by simp_all
  have "(25::rat) * of_nat (length ?is) \<le> of_int (sum_list ?is)"
  proof -
    have "(of_int (25 * int (length ?is)) :: rat) \<le> of_int (sum_list ?is)"
      using lo by (simp only: of_int_le_iff)
    then show ?thesis by simp
  qed
  moreover have "(of_int (sum_list ?is) :: rat) \<le> 35 * of_nat (length ?is)"
  proof -
    have "(of_int (sum_list ?is) :: rat) \<le> of_int (35 * int (length ?is))"
      using hi by (simp only: of_int_le_iff)
    then show ?thesis by simp
  qed
  ultimately show ?thesis
    using pos by (simp add: mean_interval_def pos_le_divide_eq pos_divide_le_eq)
qed

lemma floor_mean_interval_bounds:
  assumes "qualifies g"
  shows "25 \<le> \<lfloor>mean_interval g\<rfloor> \<and> \<lfloor>mean_interval g\<rfloor> \<le> 35"
proof -
  from mean_interval_bounds [OF assms] have lo: "25 \<le> mean_interval g" and hi: "mean_interval g \<le> 35"
    by simp_all
  from lo have "(25::int) \<le> \<lfloor>mean_interval g\<rfloor>" by (simp add: le_floor_iff)
  moreover have "\<lfloor>mean_interval g\<rfloor> \<le> \<lfloor>35::rat\<rfloor>" using hi by (rule floor_mono)
  ultimately show ?thesis by simp
qed

lemma py_int_mean_interval:
  assumes "qualifies g"
  shows "py_int (mean_interval g) = \<lfloor>mean_interval g\<rfloor>"
  using mean_interval_bounds [OF assms] by (simp add: py_int_def)

lemma positive_interval: "25 \<le> days d \<Longrightarrow> 0 < d"
  unfolding days_def ns_per_day_def by arith

lemma sort_key_nonempty: "g \<noteq> [] \<Longrightarrow> sort_key k g \<noteq> []"
proof -
  assume "g \<noteq> []"
  then have "length (sort_key k g) \<noteq> 0" by simp
  then show ?thesis by (simp del: length_sort)
qed

lemma sorted_group_strict:
  assumes "qualifies g" and "Suc i < length g"
  shows "t_date (sort_key t_date g ! i) < t_date (sort_key t_date g ! Suc i)"
proof -
  let ?s = "sort_key t_date g"
  from assms(2) have i: "i < length (intervals_of ?s)" by simp
  then have "intervals_of ?s ! i \<in> set (intervals_of ?s)" by (rule nth_mem)
  moreover from assms(1) have "\<forall>d\<in>set (intervals_of ?s). 25 \<le> d"
    by (simp add: qualifies_def interval_regular_def group_intervals_def list_all_iff)
  ultimately have "25 \<le> intervals_of ?s ! i" by blast
  moreover have "intervals_of ?s ! i = days (t_date (?s ! Suc i) - t_date (?s ! i))"
    using i by (simp add: intervals_of_def)
  ultimately have "25 \<le> days (t_date (?s ! Suc i) - t_date (?s ! i))"
    by simp
  then have "0 < t_date (?s ! Suc i) - t_date (?s ! i)"
    by (rule positive_interval)
  then show ?thesis by simp
qed

lemma sorted_group_nth_mono:
  assumes "i \<le> j" and "j < length g"
  shows "t_date (sort_key t_date g ! i) \<le> t_date (sort_key t_date g ! j)"
proof -
  have "sorted (map t_date (sort_key t_date g))" by (rule sorted_sort_key)
  from sorted_nth_mono [OF this, of i j] assms show ?thesis by simp
qed

lemma earliest_of_group:
  assumes q: "qualifies g" and t: "t \<in> set g"
  shows "t = hd (sort_key t_date g) \<or> t_date (hd (sort_key t_date g)) < t_date t"
proof -
  let ?s = "sort_key t_date g"
  from q have len: "2 \<le> length g" by (simp add: qualifies_def)
  then have ne: "?s \<noteq> []" by (intro sort_key_nonempty) auto
  from t have "t \<in> set ?s" by simp
  then obtain j where "j < length ?s" and tj: "?s ! j = t"
    unfolding in_set_conv_nth by blast
  then have j: "j < length g" by simp
  show ?thesis
  proof (cases j)
    case 0
    with tj ne show ?thesis by (simp add: hd_conv_nth)
  next
    case (Suc k)
    have "t_date (?s ! 0) < t_date (?s ! Suc 0)"
      using sorted_group_strict [OF q, of 0] len by simp
    also have "\<dots> \<le> t_date (?s ! j)"
      using sorted_group_nth_mono [of "Suc 0" j g] j Suc by simp
    finally show ?thesis using tj ne by (simp add: hd_conv_nth)
  qed
qed

lemma latest_of_group:
  assumes q: "qualifies g" and t: "t \<in> set g"
  shows "t = last (sort_key t_date g) \<or> t_date t < t_date (last (sort_key t_date g))"
proof -
  let ?s = "sort_key t_date g"
  let ?n = "length g"
  from q have len: "2 \<le> ?n" by (simp add: qualifies_def)
  then have ne: "?s \<noteq> []" by (intro sort_key_nonempty) auto
  have last: "last ?s = ?s ! (?n - 1)" using ne by (simp add: last_conv_nth)
  from t have "t \<in> set ?s" by simp
  then obtain j where "j < length ?s" and tj: "?s ! j = t"
    unfolding in_set_conv_nth by blast
  then have j: "j < ?n" by simp
  show ?thesis
  proof (cases "j = ?n - 1")
    case True
    with tj last show ?thesis by simp
  next
    case False
    with j have jm: "j \<le> ?n - 2" by simp
    have "t_date (?s ! j) \<le> t_date (?s ! (?n - 2))"
      using sorted_group_nth_mono [of j "?n - 2" g] jm len by simp
    also have "\<dots> < t_date (?s ! Suc (?n - 2))"
      using sorted_group_strict [OF q, of "?n - 2"] len by simp
    also have "Suc (?n - 2) = ?n - 1" using len by simp
    finally show ?thesis using tj last by simp
  qed
qed

lemma hd_last_in_group:
  "g \<noteq> [] \<Longrightarrow> hd (sort_key t_date g) \<in> set g \<and> last (sort_key t_date g) \<in> set g"
proof -
  assume "g \<noteq> []"
  then have "sort_key t_date g \<noteq> []" by (rule sort_key_nonempty)
  from hd_in_set [OF this] last_in_set [OF this] show ?thesis by simp
qed

lemma summary_fields:
  "Service (summary g) = full_description (hd (sort_key t_date g))"
  "Category (summary g) = t_category (hd (sort_key t_date g))"
  "Last_Charge (summary g) = strftime_ymd (t_date (last (sort_key t_date g)))"
  "Times_Charged (summary g) = length g"
  "Frequency (summary g) = ''Every ~'' @ str_int (py_int (mean_interval g)) @ '' days''"
  "Monthly_Cost (summary g) = ''$'' @ format_2f (group_mean g)"
  "Annual_Cost (summary g) = ''$'' @ format_2f (group_mean g * 12)"
  "cost_numeric (summary g) = group_mean g"
  by (simp_all add: summary_def build_record_def)

lemma emitted_record:
  assumes "detect parse df = Inr subs" and "r \<in> set subs"
  shows "\<exists>g\<in>set (merchant_groups parse df). qualifies g \<and> r = summary g"
  using detect_Inr [OF assms(1)] assms(2) by auto

subsection \<open>Failures and row order\<close>




lemma date_convert [simp]: "date (convert parse r) = stamp_of parse (date r)"
  by (simp add: convert_def set_date_def)



subsection \<open>Evaluation of the concrete inputs\<close>

lemma str_nat_digit: "n < 10 \<Longrightarrow> str_nat n = [digit_char n]"
  by (simp add: str_nat.simps)

lemma str_nat_more: "10 \<le> n \<Longrightarrow> str_nat n = str_nat (n div 10) @ [digit_char n]"
  by (subst str_nat.simps) simp

lemma floor_rat_numeral:
  "\<lfloor>(numeral a :: rat) / numeral b\<rfloor> = numeral a div numeral b"
  using floor_divide_of_int_eq [of "numeral a" "numeral b", where ?'a = rat] by simp

lemmas format_eval =
  format_2f_def round_half_even_def Let_def floor_rat_numeral str_nat_digit str_nat_more
  digit_char_def zero_pad_def str_int_def py_int_def

lemma iso_date_jan01: "iso_date ''2024-01-01'' = Some 1704067200000000000"
  by code_simp

lemma iso_date_jan31: "iso_date ''2024-01-31'' = Some 1706659200000000000"
  by code_simp

lemma iso_date_feb15: "iso_date ''2024-02-15'' = Some 1707955200000000000"
  by code_simp

lemma iso_date_mar01: "iso_date ''2024-03-01'' = Some 1709251200000000000"
  by code_simp

lemmas iso_date_eval = iso_date_jan01 iso_date_jan31 iso_date_feb15 iso_date_mar01

lemma split_ws_netflix_monthly: "split_ws ''Netflix Monthly'' = [''Netflix'', ''Monthly'']"
  by code_simp

lemma split_ws_netflix_premium: "split_ws ''Netflix Premium'' = [''Netflix'', ''Premium'']"
  by code_simp

lemma split_ws_spotify_family: "split_ws ''Spotify Family'' = [''Spotify'', ''Family'']"
  by code_simp

lemmas split_ws_eval = split_ws_netflix_monthly split_ws_netflix_premium split_ws_spotify_family

lemma parses_a: "\<forall>r\<in>set scenario_a. parses iso_date (date r)"
  by (simp add: scenario_a_def parses_def iso_date_eval)

lemma words_a: "\<forall>r\<in>set scenario_a. split_ws (description r) \<noteq> []"
  by (simp add: scenario_a_def split_ws_eval)

lemma well_formed_a: "well_formed iso_date scenario_a"
  by (simp add: well_formed_def scenario_a_def parses_def iso_date_eval split_ws_eval is_number_def)

lemma sorted_frame_a:
  "sorted_frame iso_date scenario_a =
     [\<lparr>date = 1704067200000000000, description = ''Netflix Premium'',
       amount = Number (1599 / 100), category = ''Entertainment''\<rparr>,
      \<lparr>date = 1706659200000000000, description = ''Netflix Monthly'',
       amount = Number (1599 / 100), category = ''Streaming''\<rparr>,
      \<lparr>date = 1707955200000000000, description = ''Spotify Family'',
       amount = Number (1699 / 100), category = ''Music''\<rparr>,
      \<lparr>date = 1709251200000000000, description = ''Netflix Monthly'',
       amount = Number (1599 / 100), category = ''Streaming''\<rparr>]"
  by (simp add: sorted_frame_def scenario_a_def convert_def set_date_def stamp_of_def
      iso_date_eval)

lemma groups_of_a:
  "groups_of (sorted_frame iso_date scenario_a) =
     [(''Netflix'', group_a), (''Spotify'', group_spotify)]"
  by (simp add: sorted_frame_a groups_of_def merchant_key_def split_ws_eval txn_of_def
      group_a_def group_spotify_def)


lemma sort_group_a: "sort_key t_date group_a = group_a"
  by (simp add: group_a_def)

lemma group_intervals_a: "group_intervals group_a = [30, 30]"
  unfolding group_intervals_def sort_group_a
  by (simp add: group_a_def intervals_of_def days_def ns_per_day_def upt_rec)

lemma group_mean_a: "group_mean group_a = 1599 / 100"
  by (simp add: group_mean_def group_a_def amount_value_def)

lemma mean_interval_a: "mean_interval group_a = 30"
  by (simp add: mean_interval_def group_intervals_a)

lemma qualifies_a: "qualifies group_a"
  by (simp add: qualifies_def amount_stable_def interval_regular_def group_intervals_a
      group_mean_a) (simp add: group_a_def is_number_def amount_value_def)


lemma format_1599: "format_2f (1599 / 100) = ''15.99''"
  by (simp add: format_eval)

lemma format_19188: "format_2f (4797 / 25) = ''191.88''"
  by (simp add: format_eval)

lemma str_int_30: "str_int (py_int 30) = ''30''"
  by (simp add: format_eval)

lemma civil_mar01: "civil_from_days 19783 = (2024, 3, 1)"
  by code_simp

lemma strftime_mar01: "strftime_ymd 1709251200000000000 = ''2024-03-01''"
  by (simp add: strftime_ymd_def ns_per_day_def civil_mar01 format_eval)

lemma summary_a: "summary group_a = record_a"
  unfolding summary_def sort_group_a group_mean_a mean_interval_a
  by (simp add: build_record_def group_a_def record_a_def format_1599 format_19188 str_int_30
      strftime_mar01)

lemma detect_a: "detect iso_date scenario_a = Inr [record_a]"
proof -
  have "list_all (\<lambda>t. is_number (t_amount t)) group_a"
    by (simp add: group_a_def is_number_def)
  moreover have "length group_a = 3" and "length group_spotify = 1"
    by (simp_all add: group_a_def group_spotify_def)
  ultimately show ?thesis
    by (simp add: detect_grouped [OF parses_a words_a] groups_of_a check_group_eq qualifies_a
        summary_a)
qed
















lemma split_ws_blank: "split_ws ''   '' = []"
  by code_simp


lemma detect_blank_row: "detect iso_date scenario_blank = Inl IndexError"
proof (rule detect_blank)
  show "\<forall>r\<in>set scenario_blank. parses iso_date (date r)"
    by (simp add: scenario_blank_def parses_def iso_date_eval)
  show "\<exists>r\<in>set scenario_blank. split_ws (description r) = []"
    by (simp add: scenario_blank_def split_ws_blank)
qed






























section \<open>The claims\<close>






text \<open>
  Claim C3, as stated, fails: the call assigns the converted dates to the date column of
  the caller's frame, so a text date cell of the caller is a timestamp after the call.
\<close>

theorem caller_frame_counterexample:
  "fst (detect_subscriptions iso_date scenario_a) \<noteq> scenario_a
   \<and> date (scenario_a ! 0) = DateStr ''2024-01-31''
   \<and> date (fst (detect_subscriptions iso_date scenario_a) ! 0) = Timestamp 1706659200000000000"
  unfolding detect_subscriptions_parsed [OF parses_a] fst_conv
  by (simp add: frame_after_def scenario_a_def set_date_def stamp_of_def iso_date_eval)

text \<open>
  Claim C3, amended. The call never reorders, adds or removes rows of the caller's frame
  and never changes a description, an amount or a category; when every date converts it
  replaces every date cell by its timestamp, and when a date does not convert it leaves
  the frame as it was. The sorting is done on a copy.
\<close>

theorem caller_frame_after_call:
  "fst (detect_subscriptions parse df) =
     (if list_all (\<lambda>r. parses parse (date r)) df then frame_after parse df else df)
   \<and> map description (fst (detect_subscriptions parse df)) = map description df
   \<and> map amount (fst (detect_subscriptions parse df)) = map amount df
   \<and> map category (fst (detect_subscriptions parse df)) = map category df"
proof (cases "\<forall>r\<in>set df. parses parse (date r)")
  case True
  then show ?thesis
    by (simp add: detect_subscriptions_parsed list_all_iff frame_after_def set_date_def)
next
  case False
  then have "\<exists>r\<in>set df. \<not> parses parse (date r)" by simp
  from detect_subscriptions_unparsed [OF this] False show ?thesis
    by (auto simp: list_all_iff)
qed

text \<open>
  Claim C4 asks that a transaction whose description is empty or only whitespace does
  not make the call fail. The code takes the first word of the description with
  \<^verbatim>\<open>split()[0]\<close>, which raises \<^verbatim>\<open>IndexError\<close> on such a description: on the single row
  whose description is three spaces the call fails.
\<close>

theorem blank_description_fails: "detect iso_date scenario_blank = Inl IndexError"
  by (rule detect_blank_row)







text \<open>
  Claim C7. Every emitted record belongs to a merchant group of the input in which one
  transaction is strictly earlier than all others and one is strictly later than all
  others; the service name and the category of the record are the full description and
  the category of the earliest transaction, the last charge is the date of the latest
  one, the number of charges is the number of transactions of the group, and the
  frequency is the floor of the mean of the day intervals of the group.
\<close>

theorem emitted_record_fields:
  assumes "detect parse df = Inr subs" and "r \<in> set subs"
  shows "\<exists>g\<in>set (merchant_groups parse df). \<exists>first\<in>set g. \<exists>latest\<in>set g.
           (\<forall>t\<in>set g. (t = first \<or> t_date first < t_date t) \<and> (t = latest \<or> t_date t < t_date latest))
           \<and> Service r = full_description first
           \<and> Category r = t_category first
           \<and> Last_Charge r = strftime_ymd (t_date latest)
           \<and> Times_Charged r = length g
           \<and> Frequency r = ''Every ~'' @ str_int \<lfloor>mean_interval g\<rfloor> @ '' days''"
proof -
  from emitted_record [OF assms] obtain g where
    g: "g \<in> set (merchant_groups parse df)" and q: "qualifies g" and r: "r = summary g"
    by blast
  let ?first = "hd (sort_key t_date g)" and ?latest = "last (sort_key t_date g)"
  from q have "g \<noteq> []" by (auto simp: qualifies_def)
  from hd_last_in_group [OF this] have "?first \<in> set g" and "?latest \<in> set g"
    by simp_all
  moreover have "\<forall>t\<in>set g. (t = ?first \<or> t_date ?first < t_date t)
      \<and> (t = ?latest \<or> t_date t < t_date ?latest)"
    using earliest_of_group [OF q] latest_of_group [OF q] by blast
  moreover have "Service r = full_description ?first" "Category r = t_category ?first"
    "Last_Charge r = strftime_ymd (t_date ?latest)" "Times_Charged r = length g"
    "Frequency r = ''Every ~'' @ str_int \<lfloor>mean_interval g\<rfloor> @ '' days''"
    using r py_int_mean_interval [OF q] by (simp_all add: summary_fields)
  ultimately show ?thesis using g by blast
qed

theorem emitted_record_fields_witness:
  "detect iso_date scenario_a = Inr [record_a] \<and> record_a \<in> set [record_a]
   \<and> (\<exists>g\<in>set (merchant_groups iso_date scenario_a). \<exists>first\<in>set g. \<exists>latest\<in>set g.
           (\<forall>t\<in>set g. (t = first \<or> t_date first < t_date t) \<and> (t = latest \<or> t_date t < t_date latest))
           \<and> Service record_a = full_description first
           \<and> Category record_a = t_category first
           \<and> Last_Charge record_a = strftime_ymd (t_date latest)
           \<and> Times_Charged record_a = length g
           \<and> Frequency record_a = ''Every ~'' @ str_int \<lfloor>mean_interval g\<rfloor> @ '' days'')"
  using emitted_record_fields [OF detect_a, of record_a] detect_a by simp

text \<open>
  Claim C8. On the empty input the call returns the empty sequence of subscriptions: it
  raises no error, so the outcome differs from every failure.
\<close>

theorem detect_empty:
  "detect parse [] = Inr [] \<and> (\<forall>e. detect parse [] \<noteq> Inl e)
   \<and> fst (detect_subscriptions parse []) = []"
  by (simp add: detect_def detect_subscriptions_def)

text \<open>
  Claim C9. No call raises a division by zero: the mean amount and the mean interval are
  only computed behind the gate of two or more transactions, where the list of amounts
  is not empty and there is at least one interval. On a well-formed input (every date
  converts, every amount is a number, every description has a first word) the call
  returns a list of subscriptions.
\<close>

theorem detect_arithmetic_total:
  "detect parse df \<noteq> Inl ZeroDivisionError
   \<and> (well_formed parse df \<longrightarrow> (\<exists>subs. detect parse df = Inr subs))"
  using detect_no_zero_division [of parse df] detect_well_formed [of parse df] by blast

theorem detect_arithmetic_total_witness:
  "well_formed iso_date scenario_a
   \<and> (\<exists>subs. detect iso_date scenario_a = Inr subs)
   \<and> detect iso_date scenario_a \<noteq> Inl ZeroDivisionError"
  using detect_arithmetic_total [of iso_date scenario_a] well_formed_a by simp

text \<open>
  Claim C10. The frequency of every emitted record is a number of days in the closed
  range from 25 to 35.
\<close>

theorem emitted_frequency_in_range:
  assumes "detect parse df = Inr subs" and "r \<in> set subs"
  shows "\<exists>n. 25 \<le> n \<and> n \<le> 35 \<and> Frequency r = ''Every ~'' @ str_int n @ '' days''"
proof -
  from emitted_record [OF assms] obtain g where q: "qualifies g" and r: "r = summary g"
    by blast
  have "Frequency r = ''Every ~'' @ str_int \<lfloor>mean_interval g\<rfloor> @ '' days''"
    using r py_int_mean_interval [OF q] by (simp add: summary_fields)
  with floor_mean_interval_bounds [OF q] show ?thesis by blast
qed

theorem emitted_frequency_in_range_witness:
  "detect iso_date scenario_a = Inr [record_a] \<and> record_a \<in> set [record_a]
   \<and> (\<exists>n. 25 \<le> n \<and> n \<le> 35 \<and> Frequency record_a = ''Every ~'' @ str_int n @ '' days'')"
  using emitted_frequency_in_range [OF detect_a, of record_a] detect_a by simp

end
